theory Spec2Isabelle
  imports Complex_Main
begin

section \<open>Numbers\<close>

text \<open>
  JavaScript numbers are modelled as real numbers: every arithmetic operation of the
  source is the exact operation on \<open>real\<close>, with no rounding, no infinities and no NaN.
  Cell indices, which the source obtains with \<open>Math.floor\<close>, are integers.
  A cell size is a positive number of pixels: division by zero is not modelled. Where
  a property is evaluated at concrete numbers, they are chosen so that every sum and
  product of the run is exact in double precision as well.

  \<open>jsMod\<close> is the \<open>%\<close> operator: the remainder of the truncating division, with the sign
  of the dividend.
\<close>

definition jsTrunc :: "real \<Rightarrow> int" where
  "jsTrunc v = (if v < 0 then \<lceil>v\<rceil> else \<lfloor>v\<rfloor>)"

definition jsMod :: "real \<Rightarrow> real \<Rightarrow> real" where
  "jsMod a b = a - b * of_int (jsTrunc (a / b))"

text \<open>
  \<open>v.toFixed(1)\<close> prints a minus sign when \<open>v < 0\<close> and then the integer \<open>n\<close> of tenths
  closest to \<open>|v|\<close> (the larger one of two). The printed string is determined by, and
  determines, the pair of the sign and \<open>n\<close>; the pair stands for the string.
\<close>

definition toFixed1 :: "real \<Rightarrow> bool \<times> int" where
  "toFixed1 v = (v < 0, \<lfloor>\<bar>v\<bar> * 10 + 1 / 2\<rfloor>)"

type_synonym cacheKey = "(bool \<times> int) \<times> (bool \<times> int)"

text \<open>A cell key \<open>`${cellX},${cellY}`\<close> is the pair of the two integers it prints.\<close>

type_synonym cellKey = "int \<times> int"

section \<open>The maze collaborator\<close>

text \<open>
  The raycaster and the game call \<open>maze.getSize()\<close>, \<open>maze.getWall(kind, row, col)\<close>,
  \<open>maze.getStart()\<close> and \<open>maze.getEnd()\<close>. The maze is a parameter of the development:
  its size, an arbitrary wall query, and its start and end cells.
\<close>

datatype orientation = Horizontal | Vertical

record maze =
  width :: int
  height :: int
  getWall :: "orientation \<Rightarrow> int \<Rightarrow> int \<Rightarrow> bool"
  getStart :: "int \<times> int"
  getEnd :: "int \<times> int"

text \<open>
  Modelled from the spec: the class Maze is not part of the sources. The open maze of
  the scenario has no internal walls; its boundary walls are present, and a query
  past the extent of the wall arrays (\<open>height + 1\<close> rows of \<open>width\<close> horizontal walls,
  \<open>height\<close> rows of \<open>width + 1\<close> vertical walls) reads as present.
\<close>

definition openWall :: "int \<Rightarrow> int \<Rightarrow> orientation \<Rightarrow> int \<Rightarrow> int \<Rightarrow> bool" where
  "openWall w h kind row col =
     (case kind of
        Horizontal \<Rightarrow> row \<le> 0 \<or> h \<le> row \<or> col < 0 \<or> w \<le> col
      | Vertical \<Rightarrow> col \<le> 0 \<or> w \<le> col \<or> row < 0 \<or> h \<le> row)"

definition openMaze :: "int \<Rightarrow> int \<Rightarrow> maze" where
  "openMaze w h = \<lparr>width = w, height = h, getWall = openWall w h,
                   getStart = (0, 0), getEnd = (w - 1, h - 1)\<rparr>"

section \<open>RaycastSystem\<close>

record point =
  ptX :: real
  ptY :: real
  ptDistance :: real

record config =
  rayCount :: real
  maxRayDistance :: real
  rayStep :: real
  fov :: real

text \<open>
  A JavaScript \<open>Set\<close> is an object: \<open>this.visibleCells\<close> and the \<open>cells\<close> field of a cache
  entry hold references, and \<open>clear\<close> and \<open>add\<close> change the object in place. The model
  keeps the Set objects in a store \<open>heap\<close> from addresses to contents (the keys in
  insertion order); \<open>fresh\<close> is the next unused address. Arrays are only ever changed
  while no second reference exists (\<open>update\<close> starts a miss with a new array), so a
  point list is a value. The cache is a \<open>Map\<close>: its entries in insertion order;
  \<open>cache.has(key)\<close> followed by \<open>cache.get(key)\<close> is the lookup \<open>map_of\<close>.
\<close>

record cacheEntry =
  points :: "point list"
  cells :: nat

record raycastSystem =
  config :: config
  visiblePoints :: "point list"
  visibleCells :: nat
  cache :: "(cacheKey \<times> cacheEntry) list"
  heap :: "nat \<Rightarrow> cellKey list"
  fresh :: nat

text \<open>\<open>a || b\<close> on an optional number: \<open>b\<close> when \<open>a\<close> is missing or zero.\<close>

definition orDefault :: "real option \<Rightarrow> real \<Rightarrow> real" where
  "orDefault a b = (case a of None \<Rightarrow> b | Some v \<Rightarrow> if v = 0 then b else v)"

definition newRaycastSystem ::
  "real option \<Rightarrow> real option \<Rightarrow> real option \<Rightarrow> real option \<Rightarrow> raycastSystem" where
  "newRaycastSystem optRayCount optMaxRayDistance optRayStep optFov =
     \<lparr>config = \<lparr>rayCount = orDefault optRayCount 360,
                 maxRayDistance = orDefault optMaxRayDistance 10,
                 rayStep = orDefault optRayStep (1 / 10),
                 fov = orDefault optFov 360\<rparr>,
      visiblePoints = [],
      visibleCells = 0,
      cache = [],
      heap = (\<lambda>_. []),
      fresh = 1\<rparr>"

subsection \<open>Set and Map operations\<close>

definition setAdd :: "'a \<Rightarrow> 'a list \<Rightarrow> 'a list" where
  "setAdd k ks = (if k \<in> set ks then ks else ks @ [k])"

fun mapSet :: "'k \<Rightarrow> 'v \<Rightarrow> ('k \<times> 'v) list \<Rightarrow> ('k \<times> 'v) list" where
  "mapSet k v [] = [(k, v)]"
| "mapSet k v ((k', v') # m) = (if k' = k then (k, v) # m else (k', v') # mapSet k v m)"

definition mapDelete :: "'k \<Rightarrow> ('k \<times> 'v) list \<Rightarrow> ('k \<times> 'v) list" where
  "mapDelete k m = filter (\<lambda>e. fst e \<noteq> k) m"

text \<open>\<open>cache.delete(cache.keys().next().value)\<close>: remove the entry of the first key.\<close>

definition deleteFirstKey :: "('k \<times> 'v) list \<Rightarrow> ('k \<times> 'v) list" where
  "deleteFirstKey m = (case m of [] \<Rightarrow> [] | e # _ \<Rightarrow> mapDelete (fst e) m)"

subsection \<open>isPointInWall\<close>

definition outOfGrid :: "int \<Rightarrow> int \<Rightarrow> maze \<Rightarrow> bool" where
  "outOfGrid cellX cellY mz = (cellX < 0 \<or> cellX \<ge> width mz \<or> cellY < 0 \<or> cellY \<ge> height mz)"

definition isPointInWall :: "real \<Rightarrow> real \<Rightarrow> maze \<Rightarrow> real \<Rightarrow> bool" where
  "isPointInWall px py mz cellSize =
     (let cellX = \<lfloor>px / cellSize\<rfloor>;
          cellY = \<lfloor>py / cellSize\<rfloor>;
          relX = jsMod px cellSize / cellSize;
          relY = jsMod py cellSize / cellSize
      in if outOfGrid cellX cellY mz then True
         else if relY < 1 / 10 \<and> getWall mz Horizontal cellY cellX then True
         else if relY > 9 / 10 \<and> getWall mz Horizontal (cellY + 1) cellX then True
         else if relX < 1 / 10 \<and> getWall mz Vertical cellY cellX then True
         else if relX > 9 / 10 \<and> getWall mz Vertical cellY (cellX + 1) then True
         else False)"

subsection \<open>castRay\<close>

text \<open>
  The marching loop. It need not end (a step of length zero never leaves the origin),
  so the loop is a partial function: \<open>None\<close> is the loop that runs forever.
\<close>

partial_function (option) castRayLoop ::
  "maze \<Rightarrow> real \<Rightarrow> real \<Rightarrow> real \<Rightarrow> real \<Rightarrow> real \<Rightarrow> real \<Rightarrow> real \<Rightarrow> real
     \<Rightarrow> point list \<Rightarrow> point list option" where
  "castRayLoop mz cellSize dirX dirY step maxDistance distance currentX currentY pts =
     (if distance < maxDistance then
        (let currentX' = currentX + dirX * step;
             currentY' = currentY + dirY * step;
             distance' = distance + step
         in if isPointInWall currentX' currentY' mz cellSize then Some pts
            else
              (let pts' = pts @ [\<lparr>ptX = currentX', ptY = currentY', ptDistance = distance'\<rparr>]
               in if outOfGrid \<lfloor>currentX' / cellSize\<rfloor> \<lfloor>currentY' / cellSize\<rfloor> mz
                  then Some pts'
                  else castRayLoop mz cellSize dirX dirY step maxDistance
                         distance' currentX' currentY' pts'))
      else Some pts)"

definition castRay ::
  "config \<Rightarrow> real \<Rightarrow> real \<Rightarrow> real \<Rightarrow> maze \<Rightarrow> real \<Rightarrow> point list option" where
  "castRay cfg startX startY angle mz cellSize =
     castRayLoop mz cellSize (cos angle) (sin angle)
       (rayStep cfg * cellSize) (maxRayDistance cfg * cellSize) 0 startX startY []"

subsection \<open>update\<close>

fun addCells :: "point list \<Rightarrow> real \<Rightarrow> cellKey list \<Rightarrow> cellKey list" where
  "addCells [] cellSize ks = ks"
| "addCells (p # ps) cellSize ks =
     addCells ps cellSize (setAdd (\<lfloor>ptX p / cellSize\<rfloor>, \<lfloor>ptY p / cellSize\<rfloor>) ks)"

text \<open>
  The loop \<open>for (let i = 0; i < rayCount; i++)\<close> runs over the naturals below
  \<open>rayCount\<close>, that is over \<open>[0..<nat \<lceil>rayCount\<rceil>]\<close>; \<open>raysLoop\<close> takes that list.
\<close>

fun raysLoop ::
  "nat list \<Rightarrow> real \<Rightarrow> real \<Rightarrow> real \<Rightarrow> maze \<Rightarrow> real \<Rightarrow> raycastSystem
     \<Rightarrow> raycastSystem option" where
  "raysLoop [] angleStep playerX playerY mz cellSize s = Some s"
| "raysLoop (i # is) angleStep playerX playerY mz cellSize s =
     (case castRay (config s) playerX playerY ((of_nat i * angleStep) * pi / 180) mz cellSize of
        None \<Rightarrow> None
      | Some rayPoints \<Rightarrow>
          raysLoop is angleStep playerX playerY mz cellSize
            (s\<lparr>visiblePoints := visiblePoints s @ rayPoints,
               heap := (heap s)(visibleCells s :=
                          addCells rayPoints cellSize (heap s (visibleCells s)))\<rparr>))"

definition cacheKeyOf :: "real \<Rightarrow> real \<Rightarrow> cacheKey" where
  "cacheKeyOf playerX playerY = (toFixed1 playerX, toFixed1 playerY)"

definition update ::
  "real \<Rightarrow> real \<Rightarrow> maze \<Rightarrow> real \<Rightarrow> raycastSystem \<Rightarrow> (point list \<times> raycastSystem) option" where
  "update playerX playerY mz cellSize s =
     (let key = cacheKeyOf playerX playerY
      in case map_of (cache s) key of
           Some cached \<Rightarrow>
             (let s' = s\<lparr>visiblePoints := points cached, visibleCells := cells cached\<rparr>
              in Some (visiblePoints s', s'))
         | None \<Rightarrow>
             (let s1 = s\<lparr>visiblePoints := [], heap := (heap s)(visibleCells s := [])\<rparr>;
                  angleStep = fov (config s1) / rayCount (config s1)
              in case raysLoop [0..<nat \<lceil>rayCount (config s1)\<rceil>] angleStep playerX playerY
                        mz cellSize s1 of
                   None \<Rightarrow> None
                 | Some s2 \<Rightarrow>
                     (let entry = \<lparr>points = visiblePoints s2, cells = fresh s2\<rparr>;
                          s3 = s2\<lparr>heap := (heap s2)(fresh s2 := heap s2 (visibleCells s2)),
                                  fresh := Suc (fresh s2),
                                  cache := mapSet key entry (cache s2)\<rparr>;
                          s4 = (if length (cache s3) > 100
                                then s3\<lparr>cache := deleteFirstKey (cache s3)\<rparr> else s3)
                      in Some (visiblePoints s4, s4))))"

text \<open>A sequence of \<open>update\<close> calls on one maze, one after the other.\<close>

fun updates :: "(real \<times> real) list \<Rightarrow> maze \<Rightarrow> real \<Rightarrow> raycastSystem \<Rightarrow> raycastSystem option" where
  "updates [] mz cellSize s = Some s"
| "updates (p # ps) mz cellSize s =
     (case update (fst p) (snd p) mz cellSize s of
        None \<Rightarrow> None
      | Some r \<Rightarrow> updates ps mz cellSize (snd r))"

definition getVisibleCells :: "raycastSystem \<Rightarrow> cellKey list" where
  "getVisibleCells s = heap s (visibleCells s)"

subsection \<open>Configuration setters\<close>

definition clearCache :: "raycastSystem \<Rightarrow> raycastSystem" where
  "clearCache s = s\<lparr>cache := []\<rparr>"

definition setRayCount :: "real \<Rightarrow> raycastSystem \<Rightarrow> raycastSystem" where
  "setRayCount count s = clearCache (s\<lparr>config := (config s)\<lparr>rayCount := max 36 (min count 720)\<rparr>\<rparr>)"

definition setMaxRayDistance :: "real \<Rightarrow> raycastSystem \<Rightarrow> raycastSystem" where
  "setMaxRayDistance d s =
     clearCache (s\<lparr>config := (config s)\<lparr>maxRayDistance := max 1 (min d 20)\<rparr>\<rparr>)"

definition setFOV :: "real \<Rightarrow> raycastSystem \<Rightarrow> raycastSystem" where
  "setFOV f s = clearCache (s\<lparr>config := (config s)\<lparr>fov := max 45 (min f 360)\<rparr>\<rparr>)"

section \<open>Game\<close>

subsection \<open>Collision test\<close>

text \<open>
  The body of the two nested loops of \<open>checkWallCollision\<close> for one cell
  \<open>(checkX, checkY)\<close> of the neighbourhood: its top, bottom, left and right wall.
  Every test returns \<open>true\<close> at once, so the loops compute a disjunction.
\<close>

definition cellWallCollision ::
  "maze \<Rightarrow> real \<Rightarrow> real \<Rightarrow> real \<Rightarrow> real \<Rightarrow> int \<Rightarrow> int \<Rightarrow> bool" where
  "cellWallCollision mz px py radius cellSize checkX checkY =
     ((getWall mz Horizontal checkY checkX
         \<and> \<bar>py - of_int checkY * cellSize\<bar> < radius
         \<and> px \<ge> of_int checkX * cellSize \<and> px \<le> of_int (checkX + 1) * cellSize)
      \<or> (getWall mz Horizontal (checkY + 1) checkX
         \<and> \<bar>py - of_int (checkY + 1) * cellSize\<bar> < radius
         \<and> px \<ge> of_int checkX * cellSize \<and> px \<le> of_int (checkX + 1) * cellSize)
      \<or> (getWall mz Vertical checkY checkX
         \<and> \<bar>px - of_int checkX * cellSize\<bar> < radius
         \<and> py \<ge> of_int checkY * cellSize \<and> py \<le> of_int (checkY + 1) * cellSize)
      \<or> (getWall mz Vertical checkY (checkX + 1)
         \<and> \<bar>px - of_int (checkX + 1) * cellSize\<bar> < radius
         \<and> py \<ge> of_int checkY * cellSize \<and> py \<le> of_int (checkY + 1) * cellSize))"

definition checkWallCollision :: "maze \<Rightarrow> real \<Rightarrow> real \<Rightarrow> real \<Rightarrow> real \<Rightarrow> bool" where
  "checkWallCollision mz px py radius cellSize =
     (let cellX = \<lfloor>px / cellSize\<rfloor>;
          cellY = \<lfloor>py / cellSize\<rfloor>
      in list_ex (\<lambda>dy. list_ex (\<lambda>dx.
           cellWallCollision mz px py radius cellSize (cellX + dx) (cellY + dy))
             [- 1, 0, 1]) [- 1, 0, 1])"

text \<open>
  The wording of the specification for one wall segment: the segment is set, the
  candidate lies within its span, and the distance to its line is below the radius.
\<close>

definition horizontalSegmentHit ::
  "maze \<Rightarrow> real \<Rightarrow> real \<Rightarrow> real \<Rightarrow> real \<Rightarrow> int \<Rightarrow> int \<Rightarrow> bool" where
  "horizontalSegmentHit mz px py r cs row col =
     (getWall mz Horizontal row col \<and> \<bar>py - of_int row * cs\<bar> < r
      \<and> of_int col * cs \<le> px \<and> px \<le> of_int (col + 1) * cs)"

definition verticalSegmentHit ::
  "maze \<Rightarrow> real \<Rightarrow> real \<Rightarrow> real \<Rightarrow> real \<Rightarrow> int \<Rightarrow> int \<Rightarrow> bool" where
  "verticalSegmentHit mz px py r cs row col =
     (getWall mz Vertical row col \<and> \<bar>px - of_int col * cs\<bar> < r
      \<and> of_int row * cs \<le> py \<and> py \<le> of_int (row + 1) * cs)"

subsection \<open>State of a game\<close>

text \<open>
  The legacy \<open>ViewSystem\<close>, the canvas and the fields \<open>viewMode\<close> and \<open>showSolution\<close> are
  outside this development: the call \<open>viewSystem.update\<close> at the end of
  \<open>updateVisibility\<close> is taken to return and to change the view system only.
  \<open>Date.now()\<close> is the argument \<open>now\<close> of the operations that read the clock.
\<close>

record gameConfig =
  mazeSize :: real
  cellSize :: real
  moveSpeed :: real
  playerRadius :: real

record gameState =
  isRunning :: bool
  isPaused :: bool
  isGameOver :: bool
  isVictory :: bool
  startTime :: "int option"
  endTime :: "int option"

record player =
  posX :: real
  posY :: real
  prevX :: real
  prevY :: real
  radius :: real

record moveInput =
  up :: bool
  down :: bool
  left :: bool
  right :: bool

datatype eventName = OnGameStart | OnGameOver | OnVictory | OnMove | OnCellExplored

datatype eventData =
    MoveData real real real real
  | CellExploredData int int nat real
  | VictoryData int int nat real

text \<open>
  A listener is a function of the host page. It reads the event data, acts on the
  host's own state \<open>'w\<close>, and returns or throws; it does not call back into the game.
\<close>

datatype 'w outcome = Returned 'w | Threw string 'w

type_synonym 'w callback = "eventData \<Rightarrow> 'w \<Rightarrow> 'w outcome"

datatype logEntry = CallbackError eventName string

text \<open>
  \<open>console\<close> holds the lines written by \<open>console.error\<close>. \<open>calls\<close> is a history variable
  of the model: one entry per listener invocation, the event and the position of the
  listener in its array.
\<close>

record 'w game =
  config_g :: gameConfig
  state :: gameState
  maze :: maze
  player :: player
  raycastSystem :: "raycastSystem option"
  exploredCells :: "cellKey list"
  visitedCells :: "cellKey list"
  moveInput :: moveInput
  eventListeners :: "eventName \<Rightarrow> 'w callback list"
  world :: 'w
  console :: "logEntry list"
  calls :: "(eventName \<times> nat) list"

subsection \<open>triggerEvent\<close>

fun runCallbacks ::
  "nat \<Rightarrow> 'w callback list \<Rightarrow> eventName \<Rightarrow> eventData \<Rightarrow> 'w game \<Rightarrow> 'w game" where
  "runCallbacks i [] ev d g = g"
| "runCallbacks i (cb # cbs) ev d g =
     (case cb d (world g) of
        Returned w \<Rightarrow>
          runCallbacks (Suc i) cbs ev d (g\<lparr>world := w, calls := calls g @ [(ev, i)]\<rparr>)
      | Threw e w \<Rightarrow>
          runCallbacks (Suc i) cbs ev d
            (g\<lparr>world := w, calls := calls g @ [(ev, i)],
               console := console g @ [CallbackError ev e]\<rparr>))"

definition triggerEvent :: "eventName \<Rightarrow> eventData \<Rightarrow> 'w game \<Rightarrow> 'w game" where
  "triggerEvent ev d g = runCallbacks 0 (eventListeners g ev) ev d g"

subsection \<open>updateVisibility\<close>

fun exploreLoop :: "cellKey list \<Rightarrow> 'w game \<Rightarrow> 'w game" where
  "exploreLoop [] g = g"
| "exploreLoop (cell # rest) g =
     (if cell \<in> set (exploredCells g) then exploreLoop rest g
      else
        (let g1 = g\<lparr>exploredCells := exploredCells g @ [cell]\<rparr>
         in exploreLoop rest
              (triggerEvent OnCellExplored
                 (CellExploredData (fst cell) (snd cell) (length (exploredCells g1))
                    (mazeSize (config_g g1) * mazeSize (config_g g1)))
                 g1)))"

definition updateVisibility :: "'w game \<Rightarrow> 'w game option" where
  "updateVisibility g =
     (case raycastSystem g of
        None \<Rightarrow> Some g
      | Some rs \<Rightarrow>
          (case update (posX (player g)) (posY (player g)) (maze g) (cellSize (config_g g)) rs of
             None \<Rightarrow> None
           | Some r \<Rightarrow>
               Some (exploreLoop (getVisibleCells (snd r)) (g\<lparr>raycastSystem := Some (snd r)\<rparr>))))"

subsection \<open>canMoveTo, victory, updatePlayerPosition\<close>

definition canMoveTo :: "'w game \<Rightarrow> real \<Rightarrow> real \<Rightarrow> bool" where
  "canMoveTo g px py =
     (let cs = cellSize (config_g g);
          r = radius (player g);
          mazeWidth = mazeSize (config_g g) * cs;
          mazeHeight = mazeSize (config_g g) * cs
      in if px - r < 0 \<or> px + r > mazeWidth \<or> py - r < 0 \<or> py + r > mazeHeight then False
         else \<not> checkWallCollision (maze g) px py r cs)"

text \<open>\<open>Math.round\<close> rounds to the nearest integer, a half upwards.\<close>

definition jsRound :: "real \<Rightarrow> int" where
  "jsRound v = \<lfloor>v + 1 / 2\<rfloor>"

definition victory :: "int \<Rightarrow> 'w game \<Rightarrow> 'w game" where
  "victory now g =
     (let g1 = g\<lparr>state := (state g)\<lparr>isGameOver := True, isVictory := True,
                                    endTime := Some now, isRunning := False\<rparr>\<rparr>;
          started = (case startTime (state g1) of None \<Rightarrow> 0 | Some t \<Rightarrow> t);
          gameTime = \<lfloor>of_int (now - started) / (1000 :: real)\<rfloor>;
          totalCells = mazeSize (config_g g1) * mazeSize (config_g g1);
          exploreRate = jsRound (of_nat (length (exploredCells g1)) / totalCells * 100)
      in triggerEvent OnVictory
           (VictoryData gameTime exploreRate (length (exploredCells g1)) totalCells) g1)"

text \<open>The candidate position of one frame: the normalised input vector times the speed.\<close>

definition candidate :: "'w game \<Rightarrow> real \<times> real" where
  "candidate g =
     (let dy0 = (if up (moveInput g) then - 1 else 0) + (if down (moveInput g) then 1 else 0);
          dx0 = (if left (moveInput g) then - 1 else 0) + (if right (moveInput g) then 1 else 0);
          len = sqrt (dx0 * dx0 + dy0 * dy0);
          dx = (if len > 0 then dx0 / len else dx0);
          dy = (if len > 0 then dy0 / len else dy0);
          speed = moveSpeed (config_g g)
      in (posX (player g) + dx * speed, posY (player g) + dy * speed))"

definition noDirection :: "'w game \<Rightarrow> bool" where
  "noDirection g =
     ((if left (moveInput g) then - 1 else 0) + (if right (moveInput g) then 1 else 0) = (0 :: real)
      \<and> (if up (moveInput g) then - 1 else 0) + (if down (moveInput g) then 1 else 0) = (0 :: real))"

definition updatePlayerPosition :: "int \<Rightarrow> 'w game \<Rightarrow> (bool \<times> 'w game) option" where
  "updatePlayerPosition now g =
     (if \<not> isRunning (state g) \<or> isPaused (state g) \<or> isGameOver (state g) then Some (False, g)
      else if noDirection g then Some (False, g)
      else
        (let newX = fst (candidate g);
             newY = snd (candidate g)
         in if canMoveTo g newX newY then
              (let g1 = g\<lparr>player := (player g)\<lparr>prevX := posX (player g), prevY := posY (player g),
                                               posX := newX, posY := newY\<rparr>\<rparr>;
                   cs = cellSize (config_g g1);
                   cellX = \<lfloor>posX (player g1) / cs\<rfloor>;
                   cellY = \<lfloor>posY (player g1) / cs\<rfloor>;
                   g2 = g1\<lparr>visitedCells := setAdd (cellX, cellY) (visitedCells g1)\<rparr>;
                   g3 = triggerEvent OnMove
                          (MoveData (prevX (player g2)) (prevY (player g2)) newX newY) g2
               in case updateVisibility g3 of
                    None \<Rightarrow> None
                  | Some g4 \<Rightarrow>
                      (let endX = of_int (fst (getEnd (maze g4))) * cs + cs / 2;
                           endY = of_int (snd (getEnd (maze g4))) * cs + cs / 2;
                           distanceToEnd = sqrt ((posX (player g4) - endX)\<^sup>2
                                                 + (posY (player g4) - endY)\<^sup>2)
                       in if distanceToEnd < radius (player g4) * 2
                          then Some (True, victory now g4)
                          else Some (True, g4)))
            else Some (False, g)))"

text \<open>
  A run of frames: before each frame the host sets the four directional inputs and
  reads the clock, then calls \<open>updatePlayerPosition\<close>.
\<close>

fun runFrames :: "(moveInput \<times> int) list \<Rightarrow> 'w game \<Rightarrow> 'w game option" where
  "runFrames [] g = Some g"
| "runFrames (f # fs) g =
     (case updatePlayerPosition (snd f) (g\<lparr>moveInput := fst f\<rparr>) of
        None \<Rightarrow> None
      | Some r \<Rightarrow> runFrames fs (snd r))"

section \<open>Predicates and scenarios of the properties\<close>

definition inGrid :: "maze \<Rightarrow> real \<Rightarrow> point \<Rightarrow> bool" where
  "inGrid mz cs p =
     (0 \<le> \<lfloor>ptX p / cs\<rfloor> \<and> \<lfloor>ptX p / cs\<rfloor> < width mz
      \<and> 0 \<le> \<lfloor>ptY p / cs\<rfloor> \<and> \<lfloor>ptY p / cs\<rfloor> < height mz)"

text \<open>
  The scenario of the specification: four rays, a field of view of 360 degrees, a range
  of two cells and a step of a tenth of a cell.
\<close>

definition scenarioSystem :: raycastSystem where
  "scenarioSystem = newRaycastSystem (Some 4) (Some 2) (Some (1 / 10)) (Some 360)"

text \<open>The twenty points at 4, 8, ..., 80 pixels from (100, 100) along a direction.\<close>

definition axisRay :: "real \<Rightarrow> real \<Rightarrow> point list" where
  "axisRay dx dy =
     map (\<lambda>k. \<lparr>ptX = 100 + dx * (4 * of_nat k), ptY = 100 + dy * (4 * of_nat k),
               ptDistance = 4 * of_nat k\<rparr>) [1..<21]"


text \<open>
  The wording of the specification for the cache: a queue of at most 100 keys in
  insertion order. A key already present changes nothing; a new key goes to the
  back, and the key at the front leaves when the queue would exceed 100.
\<close>

definition fifoInsert :: "'k \<Rightarrow> 'k list \<Rightarrow> 'k list" where
  "fifoInsert k ks =
     (if k \<in> set ks then ks
      else (let ks' = ks @ [k] in if length ks' > 100 then tl ks' else ks'))"

definition fifoKeys :: "'k list \<Rightarrow> 'k list \<Rightarrow> 'k list" where
  "fifoKeys ks new = foldl (\<lambda>acc k. fifoInsert k acc) ks new"

definition keyOf :: "real \<times> real \<Rightarrow> cacheKey" where
  "keyOf p = cacheKeyOf (fst p) (snd p)"

text \<open>The 101 positions (0, 0), (1, 0), ..., (100, 0).\<close>

definition positions101 :: "(real \<times> real) list" where
  "positions101 = map (\<lambda>i. (of_nat i, 0)) [0..<101]"

text \<open>A raycaster with four rays, a range of one cell and a step of half a cell.\<close>

definition aliasSystem :: raycastSystem where
  "aliasSystem = newRaycastSystem (Some 4) (Some 1) (Some (1 / 2)) (Some 360)"

text \<open>
  Four calls of \<open>update\<close>: a miss at (100, 100), a hit there, a miss at (140, 100), and
  a hit at (100, 100) again.
\<close>

definition aliasCalls :: "(real \<times> real) list" where
  "aliasCalls = [(100, 100), (100, 100), (140, 100), (100, 100)]"

subsection \<open>Games of the properties\<close>

text \<open>The game accepts input: it is running, not paused and not over.\<close>

definition gameActive :: "'w game \<Rightarrow> bool" where
  "gameActive g = (isRunning (state g) \<and> \<not> isPaused (state g) \<and> \<not> isGameOver (state g))"

text \<open>
  A game whose cell size is positive and whose raycaster, if any, has a positive step:
  the games in which every ray ends.
\<close>

definition wellConfigured :: "'w game \<Rightarrow> bool" where
  "wellConfigured g =
     (0 < cellSize (config_g g)
      \<and> (case raycastSystem g of None \<Rightarrow> True | Some rs \<Rightarrow> 0 < rayStep (config rs)))"

text \<open>Two games that agree on everything but the host state, the console and the history.\<close>

definition sameGame :: "'w game \<Rightarrow> 'w game \<Rightarrow> bool" where
  "sameGame g g' =
     (config_g g' = config_g g \<and> state g' = state g \<and> maze g' = maze g
      \<and> player g' = player g \<and> raycastSystem g' = raycastSystem g
      \<and> exploredCells g' = exploredCells g \<and> visitedCells g' = visitedCells g
      \<and> moveInput g' = moveInput g \<and> eventListeners g' = eventListeners g)"

text \<open>
  The candidate centre lies inside the maze by at least the radius: the first test of
  \<open>canMoveTo\<close> passes.
\<close>

definition withinBounds :: "'w game \<Rightarrow> real \<Rightarrow> real \<Rightarrow> bool" where
  "withinBounds g px py =
     (0 \<le> px - radius (player g)
      \<and> px + radius (player g) \<le> mazeSize (config_g g) * cellSize (config_g g)
      \<and> 0 \<le> py - radius (player g)
      \<and> py + radius (player g) \<le> mazeSize (config_g g) * cellSize (config_g g))"

text \<open>
  A running game on the open 5 by 5 maze: the player stands at the centre of the start
  cell (0, 0), as \<open>init\<close> places it, and the right key is held.
\<close>

definition sampleGame :: "nat list game" where
  "sampleGame =
     \<lparr>config_g = \<lparr>mazeSize = 5, cellSize = 40, moveSpeed = 5, playerRadius = 8\<rparr>,
      state = \<lparr>isRunning = True, isPaused = False, isGameOver = False, isVictory = False,
                startTime = Some 0, endTime = None\<rparr>,
      maze = openMaze 5 5,
      player = \<lparr>posX = 20, posY = 20, prevX = 20, prevY = 20, radius = 8\<rparr>,
      raycastSystem = Some (newRaycastSystem (Some 180) (Some 5) (Some (1 / 20)) (Some 360)),
      exploredCells = [(0, 0)],
      visitedCells = [(0, 0)],
      moveInput = \<lparr>up = False, down = False, left = False, right = True\<rparr>,
      eventListeners = (\<lambda>_. []),
      world = [],
      console = [],
      calls = []\<rparr>"

definition pausedGame :: "nat list game" where
  "pausedGame = sampleGame\<lparr>state := (state sampleGame)\<lparr>isPaused := True\<rparr>\<rparr>"

definition pressRight :: moveInput where
  "pressRight = \<lparr>up = False, down = False, left = False, right = True\<rparr>"

text \<open>
  Three listeners for the discovery of a cell. Each appends its mark to the host
  state; the second one throws after doing so.
\<close>

definition markListener :: "nat \<Rightarrow> nat list callback" where
  "markListener n = (\<lambda>d w. Returned (w @ [n]))"

definition failingListener :: "nat \<Rightarrow> nat list callback" where
  "failingListener n = (\<lambda>d w. Threw ''listener failed'' (w @ [n]))"

definition listenerGame :: "nat list game" where
  "listenerGame =
     sampleGame\<lparr>eventListeners :=
       (\<lambda>ev. if ev = OnCellExplored
             then [markListener 0, failingListener 1, markListener 2] else [])\<rparr>"

text \<open>
  The open maze with two more horizontal walls, above and below the cell (0, 1).
\<close>

definition corridorMaze :: maze where
  "corridorMaze =
     (openMaze 5 5)\<lparr>getWall :=
        (\<lambda>kind row col. openWall 5 5 kind row col
                          \<or> (kind = Horizontal \<and> col = 0 \<and> (row = 1 \<or> row = 2)))\<rparr>"

definition corridorGame :: "nat list game" where
  "corridorGame = sampleGame\<lparr>maze := corridorMaze\<rparr>"

section \<open>The marching loop\<close>

lemma measure_step:
  fixes d m st :: real
  assumes "0 < st" "d < m"
  shows "nat \<lceil>(m - (d + st)) / st\<rceil> < nat \<lceil>(m - d) / st\<rceil>"
proof -
  have e: "(m - (d + st)) / st = (m - d) / st - 1"
    using assms by (simp add: field_simps)
  have "0 < (m - d) / st" using assms by simp
  then have "0 < \<lceil>(m - d) / st\<rceil>" by simp
  then show ?thesis unfolding e by simp
qed

lemma inWall_outOfGrid:
  "outOfGrid \<lfloor>px / cs\<rfloor> \<lfloor>py / cs\<rfloor> mz \<Longrightarrow> isPointInWall px py mz cs"
  by (simp add: isPointInWall_def Let_def)

lemma castRayLoop_done:
  "\<not> d < m \<Longrightarrow> castRayLoop mz cs dx dy st m d cx cy pts = Some pts"
  by (subst castRayLoop.simps) simp

lemma castRayLoop_blocked:
  "d < m \<Longrightarrow> isPointInWall (cx + dx * st) (cy + dy * st) mz cs
     \<Longrightarrow> castRayLoop mz cs dx dy st m d cx cy pts = Some pts"
  by (subst castRayLoop.simps) simp

lemma castRayLoop_march:
  "d < m \<Longrightarrow> \<not> isPointInWall (cx + dx * st) (cy + dy * st) mz cs
     \<Longrightarrow> castRayLoop mz cs dx dy st m d cx cy pts
         = castRayLoop mz cs dx dy st m (d + st) (cx + dx * st) (cy + dy * st)
             (pts @ [\<lparr>ptX = cx + dx * st, ptY = cy + dy * st, ptDistance = d + st\<rparr>])"
  using inWall_outOfGrid by (subst castRayLoop.simps) (auto simp add: Let_def)

lemmas ray_eval = castRayLoop_march castRayLoop_done castRayLoop_blocked

lemmas wall_eval = isPointInWall_def Let_def outOfGrid_def openMaze_def openWall_def
  jsMod_def jsTrunc_def

text \<open>
  With a positive step the loop ends, and every point it appends lies in the grid:
  a point is recorded only after \<open>isPointInWall\<close> has found its cell inside.
\<close>

lemma castRayLoop_returns:
  assumes "0 < st"
  shows "\<exists>new. castRayLoop mz cs dx dy st m d cx cy pts = Some (pts @ new)
      \<and> (\<forall>p \<in> set new. inGrid mz cs p)"
proof (induction "nat \<lceil>(m - d) / st\<rceil>" arbitrary: d cx cy pts rule: less_induct)
  case less
  show ?case
  proof (cases "d < m")
    case False
    then show ?thesis by (simp add: castRayLoop_done)
  next
    case True
    let ?x = "cx + dx * st" and ?y = "cy + dy * st" and ?d = "d + st"
    show ?thesis
    proof (cases "isPointInWall ?x ?y mz cs")
      case True
      with \<open>d < m\<close> show ?thesis by (simp add: castRayLoop_blocked)
    next
      case False
      let ?p = "\<lparr>ptX = ?x, ptY = ?y, ptDistance = ?d\<rparr>"
      have og: "\<not> outOfGrid \<lfloor>?x / cs\<rfloor> \<lfloor>?y / cs\<rfloor> mz"
        using False inWall_outOfGrid by blast
      have unf: "castRayLoop mz cs dx dy st m d cx cy pts
                 = castRayLoop mz cs dx dy st m ?d ?x ?y (pts @ [?p])"
        using \<open>d < m\<close> False by (rule castRayLoop_march)
      from less(1)[OF measure_step[OF assms \<open>d < m\<close>], of ?x ?y "pts @ [?p]"]
      obtain new where n:
        "castRayLoop mz cs dx dy st m ?d ?x ?y (pts @ [?p]) = Some ((pts @ [?p]) @ new)"
        "\<forall>p \<in> set new. inGrid mz cs p"
        by blast
      have pin: "inGrid mz cs ?p" using og by (simp add: inGrid_def outOfGrid_def)
      show ?thesis
      proof (intro exI[of _ "?p # new"] conjI)
        show "castRayLoop mz cs dx dy st m d cx cy pts = Some (pts @ ?p # new)"
          using unf n(1) by simp
        show "\<forall>p \<in> set (?p # new). inGrid mz cs p"
          using n(2) pin by simp
      qed
    qed
  qed
qed

lemma castRay_points_in_grid:
  assumes "0 < rayStep cfg" "0 < cs"
  shows "\<exists>pts. castRay cfg sx sy a mz cs = Some pts \<and> (\<forall>p \<in> set pts. inGrid mz cs p)"
proof -
  have "0 < rayStep cfg * cs" using assms by simp
  from castRayLoop_returns[OF this, of mz cs "cos a" "sin a" "maxRayDistance cfg * cs"
      0 sx sy "[]"]
  show ?thesis by (simp add: castRay_def)
qed

lemma castRay_total:
  assumes "0 < rayStep cfg" "0 < cs"
  shows "\<exists>pts. castRay cfg sx sy a mz cs = Some pts"
  using castRay_points_in_grid[OF assms] by blast

section \<open>Boundary safety of a ray\<close>


section \<open>The four-ray scenario\<close>

lemma axisRay_unfold:
  "axisRay dx dy =
     map (\<lambda>k. \<lparr>ptX = 100 + dx * (4 * of_nat k), ptY = 100 + dy * (4 * of_nat k),
               ptDistance = 4 * of_nat k\<rparr>)
       [1, 2, 3, 4, 5, 6, 7, 8, 9, 10, 11, 12, 13, 14, 15, 16, 17, 18, 19, 20]"
  by (simp add: axisRay_def upt_conv_Cons)

lemma sin_cos_3half: "cos (3 * pi / 2) = 0" "sin (3 * pi / 2) = - 1"
  using cos_3over2_pi sin_3over2_pi by (simp_all add: mult.commute)

lemma axis_ray_east:
  "castRayLoop (openMaze 5 5) 40 1 0 4 80 0 100 100 [] = Some (axisRay 1 0)"
  by (simp add: ray_eval wall_eval axisRay_unfold)

lemma axis_ray_south:
  "castRayLoop (openMaze 5 5) 40 0 1 4 80 0 100 100 [] = Some (axisRay 0 1)"
  by (simp add: ray_eval wall_eval axisRay_unfold)

lemma axis_ray_west:
  "castRayLoop (openMaze 5 5) 40 (- 1) 0 4 80 0 100 100 [] = Some (axisRay (- 1) 0)"
  by (simp add: ray_eval wall_eval axisRay_unfold)

lemma axis_ray_north:
  "castRayLoop (openMaze 5 5) 40 0 (- 1) 4 80 0 100 100 [] = Some (axisRay 0 (- 1))"
  by (simp add: ray_eval wall_eval axisRay_unfold)

lemmas axis_rays = axis_ray_east axis_ray_south axis_ray_west axis_ray_north

lemma upt_4': "[0..<4] = [0, 1, 2, 3]"
  by (simp add: upt_conv_Cons)

lemma axisRay_last:
  "last (axisRay dx dy) = \<lparr>ptX = 100 + dx * 80, ptY = 100 + dy * 80, ptDistance = 80\<rparr>"
  by (simp add: axisRay_unfold)

text \<open>
  The claim as written puts the last recorded point of each ray near 76 pixels, the
  range less an occlusion margin of one step. The ray along the x axis ends with the
  point at 80 pixels, a whole step away from 76.
\<close>

theorem scenario_last_point_counterexample:
  "map_option (ptDistance \<circ> last)
     (castRay (config scenarioSystem) 100 100 0 (openMaze 5 5) 40) = Some 80
   \<and> map_option (\<lambda>pts. \<bar>ptDistance (last pts) - 76\<bar> < 4)
       (castRay (config scenarioSystem) 100 100 0 (openMaze 5 5) 40) = Some False"
  by (simp add: castRay_def scenarioSystem_def newRaycastSystem_def orDefault_def
      axis_rays axisRay_last)

text \<open>
  C4, as amended. In the open 5 by 5 maze with cells of 40 pixels, \<open>update\<close> at
  (100, 100) with four rays, 360 degrees, range 2 and step 0.1 casts the rays of the
  angles 0, 90, 180 and 270 degrees and returns their points in this order; each ray
  records twenty points, the last at a cumulative distance of exactly 80 pixels from
  the origin along its axis.
\<close>

theorem scenario_four_axis_rays:
  "map (\<lambda>i. (of_nat i * (fov (config scenarioSystem) / rayCount (config scenarioSystem)))
               * pi / 180) [0..<nat \<lceil>rayCount (config scenarioSystem)\<rceil>]
     = [0, pi / 2, pi, 3 * pi / 2]
   \<and> castRay (config scenarioSystem) 100 100 0 (openMaze 5 5) 40 = Some (axisRay 1 0)
   \<and> castRay (config scenarioSystem) 100 100 (pi / 2) (openMaze 5 5) 40 = Some (axisRay 0 1)
   \<and> castRay (config scenarioSystem) 100 100 pi (openMaze 5 5) 40 = Some (axisRay (- 1) 0)
   \<and> castRay (config scenarioSystem) 100 100 (3 * pi / 2) (openMaze 5 5) 40
       = Some (axisRay 0 (- 1))
   \<and> map_option fst (update 100 100 (openMaze 5 5) 40 scenarioSystem)
       = Some (axisRay 1 0 @ axisRay 0 1 @ axisRay (- 1) 0 @ axisRay 0 (- 1))
   \<and> length (axisRay dx dy) = 20
   \<and> last (axisRay dx dy) = \<lparr>ptX = 100 + dx * 80, ptY = 100 + dy * 80, ptDistance = 80\<rparr>"
proof (intro conjI)
  show "map_option fst (update 100 100 (openMaze 5 5) 40 scenarioSystem)
       = Some (axisRay 1 0 @ axisRay 0 1 @ axisRay (- 1) 0 @ axisRay 0 (- 1))"
    by (simp add: update_def scenarioSystem_def newRaycastSystem_def orDefault_def Let_def
        upt_4' castRay_def sin_cos_3half axis_rays)
  show "length (axisRay dx dy) = 20"
    by (simp add: axisRay_def)
qed (simp_all add: scenarioSystem_def newRaycastSystem_def orDefault_def upt_4' castRay_def
      sin_cos_3half axis_rays axisRay_last)

section \<open>The cache of update\<close>

lemma mapSet_fresh: "k \<notin> set (map fst m) \<Longrightarrow> mapSet k v m = m @ [(k, v)]"
  by (induction m) auto

lemma deleteFirstKey_distinct:
  "distinct (map fst m) \<Longrightarrow> deleteFirstKey m = tl m"
proof (cases m)
  case Nil
  then show ?thesis by (simp add: deleteFirstKey_def)
next
  case (Cons e rest)
  assume "distinct (map fst m)"
  with Cons have "fst e \<notin> fst ` set rest" by simp
  then have "\<forall>x \<in> set rest. fst x \<noteq> fst e" by (metis imageI)
  then have "filter (\<lambda>x. fst x \<noteq> fst e) rest = rest" by (simp add: filter_id_conv)
  with Cons show ?thesis by (simp add: deleteFirstKey_def mapDelete_def)
qed

lemma map_of_None_keys: "map_of m k = None \<longleftrightarrow> k \<notin> set (map fst m)"
  by (simp add: map_of_eq_None_iff)

lemma raysLoop_total:
  assumes "0 < rayStep (config s)" "0 < cs"
  shows "\<exists>s'. raysLoop is a px py mz cs s = Some s' \<and> config s' = config s
          \<and> cache s' = cache s \<and> fresh s' = fresh s \<and> visibleCells s' = visibleCells s"
  using assms
proof (induction "is" arbitrary: s)
  case Nil
  then show ?case by simp
next
  case (Cons i rest)
  obtain pts where p: "castRay (config s) px py ((of_nat i * a) * pi / 180) mz cs = Some pts"
    using castRay_total[OF Cons.prems] by blast
  let ?s = "s\<lparr>visiblePoints := visiblePoints s @ pts,
               heap := (heap s)(visibleCells s := addCells pts cs (heap s (visibleCells s)))\<rparr>"
  have "0 < rayStep (config ?s)" using Cons.prems by simp
  from Cons.IH[OF this Cons.prems(2)] p show ?case by simp
qed

lemma update_keys:
  assumes "0 < rayStep (config s)" "0 < cs" "distinct (map fst (cache s))"
  shows "\<exists>r. update px py mz cs s = Some r \<and> config (snd r) = config s
          \<and> map fst (cache (snd r)) = fifoInsert (cacheKeyOf px py) (map fst (cache s))
          \<and> distinct (map fst (cache (snd r)))"
proof (cases "map_of (cache s) (cacheKeyOf px py)")
  case (Some cached)
  then have "cacheKeyOf px py \<in> set (map fst (cache s))"
    using map_of_None_keys[of "cache s" "cacheKeyOf px py"] by simp
  with Some assms(3) show ?thesis
    by (simp add: update_def Let_def fifoInsert_def)
next
  case None
  then have nk: "cacheKeyOf px py \<notin> set (map fst (cache s))"
    using map_of_None_keys[of "cache s" "cacheKeyOf px py"] by simp
  let ?s1 = "s\<lparr>visiblePoints := [], heap := (heap s)(visibleCells s := [])\<rparr>"
  have "0 < rayStep (config ?s1)" using assms by simp
  from raysLoop_total[OF this assms(2), of "[0..<nat \<lceil>rayCount (config ?s1)\<rceil>]"
      "fov (config ?s1) / rayCount (config ?s1)" px py mz]
  obtain s2 where s2: "raysLoop [0..<nat \<lceil>rayCount (config ?s1)\<rceil>]
      (fov (config ?s1) / rayCount (config ?s1)) px py mz cs ?s1 = Some s2"
     "config s2 = config s" "cache s2 = cache s"
    by auto
  have d: "distinct (map fst (cache s) @ [cacheKeyOf px py])" using assms(3) nk by simp
  then have d': "distinct (map fst (cache s @ [(cacheKeyOf px py, e)]))" for e :: cacheEntry
    by simp
  have dt: "distinct (tl (map fst (cache s) @ [cacheKeyOf px py]))"
    using d by (rule distinct_tl)
  show ?thesis
    using None s2 nk d dt
    by (simp add: update_def Let_def fifoInsert_def mapSet_fresh
        deleteFirstKey_distinct[OF d'] map_tl)
qed

lemma fifoKeys_append_small:
  "distinct (acc @ ks) \<Longrightarrow> length (acc @ ks) \<le> 100 \<Longrightarrow> fifoKeys acc ks = acc @ ks"
proof (induction ks arbitrary: acc)
  case Nil
  then show ?case by (simp add: fifoKeys_def)
next
  case (Cons k ks)
  have "fifoInsert k acc = acc @ [k]" using Cons.prems by (simp add: fifoInsert_def)
  moreover have "fifoKeys (acc @ [k]) ks = (acc @ [k]) @ ks"
    using Cons.prems by (intro Cons.IH) simp_all
  ultimately show ?case by (simp add: fifoKeys_def)
qed

lemma fifoKeys_101:
  assumes "distinct ks" "length ks = 101"
  shows "fifoKeys [] ks = tl ks"
proof -
  from assms(2) obtain front k where ks: "ks = front @ [k]"
    by (cases ks rule: rev_cases) auto
  have f: "fifoKeys [] front = front"
    using fifoKeys_append_small[of "[]" front] assms ks by simp
  have "fifoKeys [] ks = fifoInsert k (fifoKeys [] front)"
    by (simp add: fifoKeys_def ks)
  also have "\<dots> = tl (front @ [k])"
    using assms ks f by (simp add: fifoInsert_def)
  finally show ?thesis by (simp add: ks)
qed

lemma fifoInsert_length: "length ks \<le> 100 \<Longrightarrow> length (fifoInsert k ks) \<le> 100"
  by (simp add: fifoInsert_def Let_def)

lemma fifoKeys_length: "length acc \<le> 100 \<Longrightarrow> length (fifoKeys acc ks) \<le> 100"
proof (induction ks arbitrary: acc)
  case Nil
  then show ?case by (simp add: fifoKeys_def)
next
  case (Cons k ks)
  from Cons.IH[OF fifoInsert_length[OF Cons.prems]] show ?case by (simp add: fifoKeys_def)
qed

lemma updates_keys:
  assumes "0 < rayStep (config s)" "0 < cs" "distinct (map fst (cache s))"
  shows "\<exists>s'. updates ps mz cs s = Some s' \<and> config s' = config s
          \<and> map fst (cache s') = fifoKeys (map fst (cache s)) (map keyOf ps)"
  using assms
proof (induction ps arbitrary: s)
  case Nil
  then show ?case by (simp add: fifoKeys_def)
next
  case (Cons p ps)
  from update_keys[OF Cons.prems, of "fst p" "snd p" mz]
  obtain r where r: "update (fst p) (snd p) mz cs s = Some r" "config (snd r) = config s"
    "map fst (cache (snd r)) = fifoInsert (keyOf p) (map fst (cache s))"
    "distinct (map fst (cache (snd r)))"
    by (auto simp add: keyOf_def)
  have "0 < rayStep (config (snd r))" using r(2) Cons.prems(1) by simp
  from Cons.IH[OF this Cons.prems(2) r(4)] r show ?case
    by (auto simp add: fifoKeys_def)
qed

lemma keyOf_positions101: "map keyOf positions101 = map (\<lambda>i. ((False, 10 * int i), (False, 0))) [0..<101]"
proof -
  have "\<lfloor>real i * 10 + 1 / 2\<rfloor> = 10 * int i" for i :: nat
    by (rule floor_unique) simp_all
  then show ?thesis
    by (simp add: positions101_def keyOf_def cacheKeyOf_def toFixed1_def)
qed

lemma distinct_positions101: "distinct (map keyOf positions101)"
  unfolding keyOf_positions101 by (simp add: distinct_map inj_on_def)

section \<open>Cache bound and eviction order\<close>

text \<open>
  C5. From an empty cache, with a positive step and cell size, every sequence of
  \<open>update\<close> calls returns, and the keys of the cache, in insertion order, are those of
  the queue of the specification: a hit changes nothing, a miss appends its key and,
  beyond 100 entries, removes the key inserted first. The cache never holds more than
  100 entries. After 101 calls at 101 distinct quantized positions it holds exactly
  100 entries, the keys of all positions but the first.
\<close>

theorem cache_fifo_bound:
  assumes "cache s = []" and "0 < rayStep (config s)" and "0 < cs"
  shows "\<exists>s'. updates ps mz cs s = Some s'
     \<and> map fst (cache s') = fifoKeys [] (map keyOf ps)
     \<and> length (cache s') \<le> 100
     \<and> (length ps = 101 \<and> distinct (map keyOf ps) \<longrightarrow>
          length (cache s') = 100
          \<and> keyOf (hd ps) \<notin> set (map fst (cache s'))
          \<and> map fst (cache s') = tl (map keyOf ps))"
proof -
  have d: "distinct (map fst (cache s))" using assms(1) by simp
  from updates_keys[OF assms(2,3) d, of ps mz] assms(1)
  obtain s' where s': "updates ps mz cs s = Some s'"
    "map fst (cache s') = fifoKeys [] (map keyOf ps)"
    by auto
  have len: "length (cache s') \<le> 100"
    using fifoKeys_length[of "[]" "map keyOf ps"] s'(2)
    by (metis length_map list.size(3) zero_le)
  have full: "length (cache s') = 100 \<and> keyOf (hd ps) \<notin> set (map fst (cache s'))
          \<and> map fst (cache s') = tl (map keyOf ps)"
    if l: "length ps = 101" and dk: "distinct (map keyOf ps)"
  proof -
    have t: "map fst (cache s') = tl (map keyOf ps)"
      using fifoKeys_101[OF dk] l s'(2) by simp
    have "length (map fst (cache s')) = 100" unfolding t using l by simp
    then have n: "length (cache s') = 100" by simp
    from l obtain p rest where ps: "ps = p # rest" by (cases ps) auto
    have "keyOf (hd ps) \<notin> set (tl (map keyOf ps))" using dk ps by simp
    with t n show ?thesis by simp
  qed
  from s' len full show ?thesis by blast
qed

theorem cache_fifo_bound_witness:
  "cache scenarioSystem = [] \<and> 0 < rayStep (config scenarioSystem) \<and> (0 :: real) < 40
   \<and> length positions101 = 101 \<and> distinct (map keyOf positions101)
   \<and> (\<exists>s'. updates positions101 (openMaze 5 5) 40 scenarioSystem = Some s'
        \<and> length (cache s') = 100
        \<and> keyOf (hd positions101) \<notin> set (map fst (cache s'))
        \<and> map fst (cache s') = tl (map keyOf positions101))"
proof -
  have a: "cache scenarioSystem = []"
    by (simp add: scenarioSystem_def newRaycastSystem_def)
  have b: "0 < rayStep (config scenarioSystem)"
    by (simp add: scenarioSystem_def newRaycastSystem_def orDefault_def)
  have c: "(0 :: real) < 40" by simp
  have l: "length positions101 = 101" by (simp add: positions101_def)
  from cache_fifo_bound[OF a b c, of positions101 "openMaze 5 5"] l distinct_positions101 a b
  show ?thesis by auto
qed

section \<open>A cache hit shares the cell set of its entry\<close>

lemma rays_from_100_100:
  "castRayLoop (openMaze 5 5) 40 1 0 20 40 0 100 100 []
     = Some [\<lparr>ptX = 120, ptY = 100, ptDistance = 20\<rparr>, \<lparr>ptX = 140, ptY = 100, ptDistance = 40\<rparr>]"
  "castRayLoop (openMaze 5 5) 40 0 1 20 40 0 100 100 []
     = Some [\<lparr>ptX = 100, ptY = 120, ptDistance = 20\<rparr>, \<lparr>ptX = 100, ptY = 140, ptDistance = 40\<rparr>]"
  "castRayLoop (openMaze 5 5) 40 (- 1) 0 20 40 0 100 100 []
     = Some [\<lparr>ptX = 80, ptY = 100, ptDistance = 20\<rparr>, \<lparr>ptX = 60, ptY = 100, ptDistance = 40\<rparr>]"
  "castRayLoop (openMaze 5 5) 40 0 (- 1) 20 40 0 100 100 []
     = Some [\<lparr>ptX = 100, ptY = 80, ptDistance = 20\<rparr>, \<lparr>ptX = 100, ptY = 60, ptDistance = 40\<rparr>]"
  by (simp_all add: ray_eval wall_eval)

lemma rays_from_140_100:
  "castRayLoop (openMaze 5 5) 40 1 0 20 40 0 140 100 []
     = Some [\<lparr>ptX = 160, ptY = 100, ptDistance = 20\<rparr>, \<lparr>ptX = 180, ptY = 100, ptDistance = 40\<rparr>]"
  "castRayLoop (openMaze 5 5) 40 0 1 20 40 0 140 100 []
     = Some [\<lparr>ptX = 140, ptY = 120, ptDistance = 20\<rparr>, \<lparr>ptX = 140, ptY = 140, ptDistance = 40\<rparr>]"
  "castRayLoop (openMaze 5 5) 40 (- 1) 0 20 40 0 140 100 []
     = Some [\<lparr>ptX = 120, ptY = 100, ptDistance = 20\<rparr>, \<lparr>ptX = 100, ptY = 100, ptDistance = 40\<rparr>]"
  "castRayLoop (openMaze 5 5) 40 0 (- 1) 20 40 0 140 100 []
     = Some [\<lparr>ptX = 140, ptY = 80, ptDistance = 20\<rparr>, \<lparr>ptX = 140, ptY = 60, ptDistance = 40\<rparr>]"
  by (simp_all add: ray_eval wall_eval)

lemmas alias_eval = update_def aliasSystem_def newRaycastSystem_def orDefault_def Let_def
  upt_4' castRay_def sin_cos_3half rays_from_100_100 rays_from_140_100 cacheKeyOf_def
  toFixed1_def setAdd_def getVisibleCells_def

text \<open>
  C1 at a failing input. The first call at (100, 100) leaves the cells seen from
  there. The second call is a hit and makes \<open>visibleCells\<close> refer to the Set object of
  the cache entry; the miss at (140, 100) clears and refills that object; the fourth
  call, a hit at (100, 100) with the maze and cell size unchanged, returns the same
  points as the first call but leaves the cells seen from (140, 100).
\<close>

theorem update_hit_after_miss_cells:
  "map_option getVisibleCells (updates [(100, 100)] (openMaze 5 5) 40 aliasSystem)
     = Some [(3, 2), (2, 3), (2, 2), (1, 2), (2, 1)]
   \<and> map_option getVisibleCells (updates aliasCalls (openMaze 5 5) 40 aliasSystem)
     = Some [(4, 2), (3, 3), (3, 2), (2, 2), (3, 1)]
   \<and> map_option visiblePoints (updates aliasCalls (openMaze 5 5) 40 aliasSystem)
     = map_option visiblePoints (updates [(100, 100)] (openMaze 5 5) 40 aliasSystem)"
  by (simp add: aliasCalls_def alias_eval)

section \<open>Listeners and the explored set\<close>

lemma update_total:
  assumes "0 < rayStep (config s)" "0 < cs"
  shows "\<exists>r. update px py mz cs s = Some r \<and> config (snd r) = config s"
proof (cases "map_of (cache s) (cacheKeyOf px py)")
  case (Some cached)
  then show ?thesis by (simp add: update_def Let_def)
next
  case None
  let ?s1 = "s\<lparr>visiblePoints := [], heap := (heap s)(visibleCells s := [])\<rparr>"
  have "0 < rayStep (config ?s1)" using assms by simp
  from raysLoop_total[OF this assms(2), of "[0..<nat \<lceil>rayCount (config ?s1)\<rceil>]"
      "fov (config ?s1) / rayCount (config ?s1)" px py mz]
  obtain s2 where s2: "raysLoop [0..<nat \<lceil>rayCount (config ?s1)\<rceil>]
      (fov (config ?s1) / rayCount (config ?s1)) px py mz cs ?s1 = Some s2"
     "config s2 = config s"
    by auto
  then show ?thesis using None by (simp add: update_def Let_def)
qed

lemma runCallbacks_same: "sameGame g (runCallbacks i cbs ev d g)"
proof (induction cbs arbitrary: i g)
  case Nil
  then show ?case by (simp add: sameGame_def)
next
  case (Cons cb cbs)
  show ?case
  proof (cases "cb d (world g)")
    case (Returned w)
    with Cons[of "g\<lparr>world := w, calls := calls g @ [(ev, i)]\<rparr>" "Suc i"]
    show ?thesis by (simp add: sameGame_def)
  next
    case (Threw e w)
    with Cons[of "g\<lparr>world := w, calls := calls g @ [(ev, i)],
                    console := console g @ [CallbackError ev e]\<rparr>" "Suc i"]
    show ?thesis by (simp add: sameGame_def)
  qed
qed

lemma runCallbacks_calls:
  "calls (runCallbacks i cbs ev d g) = calls g @ map (Pair ev) [i..<i + length cbs]"
proof (induction cbs arbitrary: i g)
  case Nil
  then show ?case by simp
next
  case (Cons cb cbs)
  have u: "[i..<Suc (i + length cbs)] = i # [Suc i..<Suc (i + length cbs)]"
    by (rule upt_conv_Cons) simp
  show ?case
    by (cases "cb d (world g)") (simp_all add: Cons u del: upt_Suc)
qed

lemma runCallbacks_append:
  "runCallbacks i (pre @ post) ev d g
     = runCallbacks (i + length pre) post ev d (runCallbacks i pre ev d g)"
proof (induction pre arbitrary: i g)
  case Nil
  then show ?case by simp
next
  case (Cons cb pre)
  show ?case
    by (cases "cb d (world g)") (simp_all add: Cons)
qed

lemma runCallbacks_console_mono:
  "set (console g) \<subseteq> set (console (runCallbacks i cbs ev d g))"
proof (induction cbs arbitrary: i g)
  case Nil
  then show ?case by simp
next
  case (Cons cb cbs)
  show ?case
  proof (cases "cb d (world g)")
    case (Returned w)
    with Cons[of "g\<lparr>world := w, calls := calls g @ [(ev, i)]\<rparr>" "Suc i"]
    show ?thesis by simp
  next
    case (Threw e w)
    with Cons[of "g\<lparr>world := w, calls := calls g @ [(ev, i)],
                    console := console g @ [CallbackError ev e]\<rparr>" "Suc i"]
    show ?thesis by auto
  qed
qed

lemma triggerEvent_same: "sameGame g (triggerEvent ev d g)"
  by (simp add: triggerEvent_def runCallbacks_same)

lemma sameGame_fields:
  assumes "sameGame g g'"
  shows "config_g g' = config_g g" "state g' = state g" "maze g' = maze g"
    "player g' = player g" "raycastSystem g' = raycastSystem g"
    "exploredCells g' = exploredCells g" "visitedCells g' = visitedCells g"
    "moveInput g' = moveInput g" "eventListeners g' = eventListeners g"
  using assms by (simp_all add: sameGame_def)

lemmas triggerEvent_fields = sameGame_fields[OF triggerEvent_same]

lemma exploreLoop_fields:
  "config_g (exploreLoop vis g) = config_g g \<and> state (exploreLoop vis g) = state g
   \<and> maze (exploreLoop vis g) = maze g \<and> player (exploreLoop vis g) = player g
   \<and> raycastSystem (exploreLoop vis g) = raycastSystem g
   \<and> visitedCells (exploreLoop vis g) = visitedCells g
   \<and> moveInput (exploreLoop vis g) = moveInput g
   \<and> eventListeners (exploreLoop vis g) = eventListeners g
   \<and> exploredCells (exploreLoop vis g) = foldl (\<lambda>ks c. setAdd c ks) (exploredCells g) vis"
proof (induction vis arbitrary: g)
  case Nil
  then show ?case by simp
next
  case (Cons c vis)
  show ?case
  proof (cases "c \<in> set (exploredCells g)")
    case True
    then show ?thesis using Cons[of g] by (simp add: setAdd_def)
  next
    case False
    let ?g1 = "g\<lparr>exploredCells := exploredCells g @ [c]\<rparr>"
    let ?g2 = "triggerEvent OnCellExplored
                 (CellExploredData (fst c) (snd c) (length (exploredCells ?g1))
                    (mazeSize (config_g ?g1) * mazeSize (config_g ?g1))) ?g1"
    have e: "exploreLoop (c # vis) g = exploreLoop vis ?g2"
      using False by (simp add: Let_def)
    show ?thesis
      unfolding e using Cons[of ?g2] False
      by (simp add: triggerEvent_fields setAdd_def)
  qed
qed

lemma foldl_setAdd_mono: "set ks \<subseteq> set (foldl (\<lambda>ks c. setAdd c ks) ks vis)"
proof (induction vis arbitrary: ks)
  case Nil
  then show ?case by simp
next
  case (Cons c vis)
  have "set ks \<subseteq> set (setAdd c ks)" by (auto simp add: setAdd_def)
  with Cons[of "setAdd c ks"] show ?case by auto
qed

lemma updateVisibility_total:
  assumes "wellConfigured g"
  shows "\<exists>g'. updateVisibility g = Some g' \<and> wellConfigured g'
     \<and> config_g g' = config_g g \<and> state g' = state g \<and> maze g' = maze g
     \<and> player g' = player g \<and> visitedCells g' = visitedCells g
     \<and> moveInput g' = moveInput g \<and> eventListeners g' = eventListeners g
     \<and> set (exploredCells g) \<subseteq> set (exploredCells g')"
proof (cases "raycastSystem g")
  case None
  then show ?thesis using assms by (simp add: updateVisibility_def)
next
  case (Some rs)
  with assms have rs: "0 < rayStep (config rs)" "0 < cellSize (config_g g)"
    by (simp_all add: wellConfigured_def)
  from update_total[OF rs, of "posX (player g)" "posY (player g)" "maze g"]
  obtain r where r: "update (posX (player g)) (posY (player g)) (maze g)
      (cellSize (config_g g)) rs = Some r" "config (snd r) = config rs"
    by blast
  let ?g1 = "g\<lparr>raycastSystem := Some (snd r)\<rparr>"
  have uv: "updateVisibility g = Some (exploreLoop (getVisibleCells (snd r)) ?g1)"
    using Some r(1) by (simp add: updateVisibility_def)
  note f = exploreLoop_fields[of "getVisibleCells (snd r)" ?g1]
  have "set (exploredCells g) \<subseteq> set (exploredCells (exploreLoop (getVisibleCells (snd r)) ?g1))"
    using f foldl_setAdd_mono[of "exploredCells g" "getVisibleCells (snd r)"] by simp
  moreover have "wellConfigured (exploreLoop (getVisibleCells (snd r)) ?g1)"
    using f rs r(2) by (simp add: wellConfigured_def)
  ultimately show ?thesis using uv f by simp
qed

lemma victory_fields:
  "config_g (victory now g) = config_g g \<and> maze (victory now g) = maze g
   \<and> player (victory now g) = player g \<and> raycastSystem (victory now g) = raycastSystem g
   \<and> exploredCells (victory now g) = exploredCells g
   \<and> visitedCells (victory now g) = visitedCells g"
  by (simp add: victory_def Let_def triggerEvent_fields)

section \<open>One frame of movement\<close>

lemma updatePlayerPosition_step:
  assumes "wellConfigured g"
  shows "\<exists>moved g'. updatePlayerPosition now g = Some (moved, g') \<and> wellConfigured g'
     \<and> config_g g' = config_g g \<and> maze g' = maze g
     \<and> set (exploredCells g) \<subseteq> set (exploredCells g')
     \<and> set (visitedCells g) \<subseteq> set (visitedCells g')
     \<and> moved = (gameActive g \<and> \<not> noDirection g
                  \<and> canMoveTo g (fst (candidate g)) (snd (candidate g)))
     \<and> ((moved \<and> canMoveTo g (fst (candidate g)) (snd (candidate g))
          \<and> player g' = (player g)\<lparr>prevX := posX (player g), prevY := posY (player g),
                                    posX := fst (candidate g), posY := snd (candidate g)\<rparr>)
        \<or> (\<not> moved \<and> g' = g))"
proof (cases "(\<not> isRunning (state g) \<or> isPaused (state g) \<or> isGameOver (state g))
              \<or> noDirection g \<or> \<not> canMoveTo g (fst (candidate g)) (snd (candidate g))")
  case True
  then have "updatePlayerPosition now g = Some (False, g)"
    by (auto simp add: updatePlayerPosition_def Let_def)
  then show ?thesis using assms True
    by (intro exI[of _ False] exI[of _ g]) (auto simp add: gameActive_def)
next
  case False
  let ?newX = "fst (candidate g)" and ?newY = "snd (candidate g)"
  let ?g1 = "g\<lparr>player := (player g)\<lparr>prevX := posX (player g), prevY := posY (player g),
                                       posX := ?newX, posY := ?newY\<rparr>\<rparr>"
  let ?cs = "cellSize (config_g ?g1)"
  let ?g2 = "?g1\<lparr>visitedCells := setAdd (\<lfloor>posX (player ?g1) / ?cs\<rfloor>, \<lfloor>posY (player ?g1) / ?cs\<rfloor>)
                                     (visitedCells ?g1)\<rparr>"
  let ?g3 = "triggerEvent OnMove (MoveData (prevX (player ?g2)) (prevY (player ?g2)) ?newX ?newY) ?g2"
  note f3 = triggerEvent_fields[of OnMove "MoveData (prevX (player ?g2)) (prevY (player ?g2)) ?newX ?newY" ?g2]
  have w3: "wellConfigured ?g3" using assms f3 by (simp add: wellConfigured_def)
  from updateVisibility_total[OF w3]
  obtain g4 where g4: "updateVisibility ?g3 = Some g4" "wellConfigured g4"
     "config_g g4 = config_g ?g3" "maze g4 = maze ?g3" "player g4 = player ?g3"
     "visitedCells g4 = visitedCells ?g3"
     "set (exploredCells ?g3) \<subseteq> set (exploredCells g4)"
    by blast
  let ?endX = "of_int (fst (getEnd (maze g4))) * ?cs + ?cs / 2"
  let ?endY = "of_int (snd (getEnd (maze g4))) * ?cs + ?cs / 2"
  let ?won = "sqrt ((posX (player g4) - ?endX)\<^sup>2 + (posY (player g4) - ?endY)\<^sup>2)
                < radius (player g4) * 2"
  let ?g5 = "if ?won then victory now g4 else g4"
  have upp: "updatePlayerPosition now g = Some (True, ?g5)"
    using False g4(1) by (simp add: updatePlayerPosition_def Let_def)
  have vis: "set (visitedCells g) \<subseteq> set (visitedCells ?g3)"
    using f3 by (auto simp add: setAdd_def)
  have expl: "set (exploredCells g) \<subseteq> set (exploredCells g4)"
    using g4(7) f3 by simp
  have pl: "player g4 = (player g)\<lparr>prevX := posX (player g), prevY := posY (player g),
                                    posX := ?newX, posY := ?newY\<rparr>"
    using g4(5) f3 by simp
  have c4: "config_g g4 = config_g g" "maze g4 = maze g" using g4(3,4) f3 by simp_all
  have w5: "wellConfigured ?g5"
    using g4(2) victory_fields[of now g4] by (simp add: wellConfigured_def)
  have "config_g ?g5 = config_g g \<and> maze ?g5 = maze g
     \<and> set (exploredCells g) \<subseteq> set (exploredCells ?g5)
     \<and> set (visitedCells g) \<subseteq> set (visitedCells ?g5)
     \<and> player ?g5 = (player g)\<lparr>prevX := posX (player g), prevY := posY (player g),
                                    posX := ?newX, posY := ?newY\<rparr>"
    using c4 expl vis pl g4(6) victory_fields[of now g4] by simp
  with upp w5 False show ?thesis by (auto simp add: gameActive_def)
qed

lemma wellConfigured_sampleGame: "wellConfigured sampleGame"
  by (simp add: wellConfigured_def sampleGame_def newRaycastSystem_def orDefault_def)

lemma candidate_sampleGame: "candidate sampleGame = (25, 20)"
  by (simp add: candidate_def sampleGame_def Let_def)

lemma canMoveTo_sampleGame: "canMoveTo sampleGame 25 20"
  by (simp add: canMoveTo_def sampleGame_def Let_def checkWallCollision_def
      cellWallCollision_def openMaze_def openWall_def)

lemma player_sampleGame:
  "player sampleGame = \<lparr>posX = 20, posY = 20, prevX = 20, prevY = 20, radius = 8\<rparr>"
  by (simp add: sampleGame_def)

lemma active_sampleGame: "gameActive sampleGame \<and> \<not> noDirection sampleGame"
  by (simp add: gameActive_def noDirection_def sampleGame_def)

text \<open>
  C10. If the game is not running, is paused or is over, then for every state of the
  directional inputs \<open>updatePlayerPosition\<close> returns \<open>false\<close> and leaves the whole game as
  it was: the player, the explored and the visited set, the game state, and the host
  state, console and listener history, so that no event is fired.
\<close>

theorem inactive_game_ignores_input:
  assumes "\<not> isRunning (state g) \<or> isPaused (state g) \<or> isGameOver (state g)"
  shows "updatePlayerPosition now g = Some (False, g)"
  using assms by (auto simp add: updatePlayerPosition_def)

theorem inactive_game_ignores_input_witness:
  "isPaused (state pausedGame) \<and> updatePlayerPosition 0 pausedGame = Some (False, pausedGame)"
proof -
  have p: "isPaused (state pausedGame)" by (simp add: pausedGame_def)
  then have "\<not> isRunning (state pausedGame) \<or> isPaused (state pausedGame)
               \<or> isGameOver (state pausedGame)" by simp
  from inactive_game_ignores_input[OF this, of 0] p show ?thesis by simp
qed

text \<open>
  C7. In a game whose rays end, \<open>updatePlayerPosition\<close> returns, and it reports a move
  exactly when the game accepts input, a direction is held and \<open>canMoveTo\<close> accepts the
  candidate position. Then the player stands exactly at the candidate, with the old
  position in \<open>prevX\<close> and \<open>prevY\<close>; otherwise the player is unchanged. No other position
  is ever produced.
\<close>

theorem move_is_atomic:
  assumes "wellConfigured g"
  shows "\<exists>moved g'. updatePlayerPosition now g = Some (moved, g')
     \<and> moved = (gameActive g \<and> \<not> noDirection g
                  \<and> canMoveTo g (fst (candidate g)) (snd (candidate g)))
     \<and> ((moved \<and> canMoveTo g (fst (candidate g)) (snd (candidate g))
          \<and> player g' = (player g)\<lparr>prevX := posX (player g), prevY := posY (player g),
                                    posX := fst (candidate g), posY := snd (candidate g)\<rparr>)
        \<or> (\<not> moved \<and> player g' = player g))"
proof -
  from updatePlayerPosition_step[OF assms, of now]
  obtain moved g' where s: "updatePlayerPosition now g = Some (moved, g')"
    "moved = (gameActive g \<and> \<not> noDirection g
                  \<and> canMoveTo g (fst (candidate g)) (snd (candidate g)))"
    "(moved \<and> canMoveTo g (fst (candidate g)) (snd (candidate g))
          \<and> player g' = (player g)\<lparr>prevX := posX (player g), prevY := posY (player g),
                                    posX := fst (candidate g), posY := snd (candidate g)\<rparr>)
        \<or> (\<not> moved \<and> g' = g)"
    by blast
  show ?thesis
  proof (intro exI[of _ moved] exI[of _ g'] conjI)
    show "updatePlayerPosition now g = Some (moved, g')" by (rule s(1))
    show "moved = (gameActive g \<and> \<not> noDirection g
                  \<and> canMoveTo g (fst (candidate g)) (snd (candidate g)))" by (rule s(2))
    show "(moved \<and> canMoveTo g (fst (candidate g)) (snd (candidate g))
          \<and> player g' = (player g)\<lparr>prevX := posX (player g), prevY := posY (player g),
                                    posX := fst (candidate g), posY := snd (candidate g)\<rparr>)
        \<or> (\<not> moved \<and> player g' = player g)"
      using s(3) by auto
  qed
qed

theorem move_is_atomic_witness:
  "wellConfigured sampleGame
   \<and> candidate sampleGame = (25, 20)
   \<and> canMoveTo sampleGame 25 20
   \<and> (\<exists>g'. updatePlayerPosition 0 sampleGame = Some (True, g')
         \<and> player g' = \<lparr>posX = 25, posY = 20, prevX = 20, prevY = 20, radius = 8\<rparr>)"
proof -
  from move_is_atomic[OF wellConfigured_sampleGame, of 0]
  obtain moved g' where s: "updatePlayerPosition 0 sampleGame = Some (moved, g')"
    "moved = (gameActive sampleGame \<and> \<not> noDirection sampleGame
                  \<and> canMoveTo sampleGame (fst (candidate sampleGame)) (snd (candidate sampleGame)))"
    "(moved \<and> canMoveTo sampleGame (fst (candidate sampleGame)) (snd (candidate sampleGame))
          \<and> player g' = (player sampleGame)\<lparr>prevX := posX (player sampleGame),
                prevY := posY (player sampleGame),
                posX := fst (candidate sampleGame), posY := snd (candidate sampleGame)\<rparr>)
        \<or> (\<not> moved \<and> player g' = player sampleGame)"
    by blast
  have m: "moved"
    using s(2) active_sampleGame canMoveTo_sampleGame by (simp add: candidate_sampleGame)
  with s(3) have "player g' = \<lparr>posX = 25, posY = 20, prevX = 20, prevY = 20, radius = 8\<rparr>"
    by (simp add: candidate_sampleGame player_sampleGame)
  with s(1) m wellConfigured_sampleGame candidate_sampleGame canMoveTo_sampleGame
  show ?thesis by simp
qed

section \<open>Monotonicity of the explored and the visited set\<close>

text \<open>
  C6. In a game whose rays end, every run of frames returns, and every cell explored
  or visited before the run is still explored or visited after it; the two sets do
  not shrink in size. The run is arbitrary, so the same holds from frame to frame.
\<close>

theorem explored_visited_monotone:
  assumes "wellConfigured g"
  shows "\<exists>g'. runFrames fs g = Some g'
     \<and> set (exploredCells g) \<subseteq> set (exploredCells g')
     \<and> set (visitedCells g) \<subseteq> set (visitedCells g')
     \<and> card (set (exploredCells g)) \<le> card (set (exploredCells g'))
     \<and> card (set (visitedCells g)) \<le> card (set (visitedCells g'))"
proof -
  have "\<exists>g'. runFrames fs g = Some g'
     \<and> set (exploredCells g) \<subseteq> set (exploredCells g')
     \<and> set (visitedCells g) \<subseteq> set (visitedCells g')"
    using assms
  proof (induction fs arbitrary: g)
    case Nil
    then show ?case by simp
  next
    case (Cons f fs)
    let ?g = "g\<lparr>moveInput := fst f\<rparr>"
    have w: "wellConfigured ?g" using Cons.prems by (simp add: wellConfigured_def)
    from updatePlayerPosition_step[OF w, of "snd f"]
    obtain moved g1 where s: "updatePlayerPosition (snd f) ?g = Some (moved, g1)"
      "wellConfigured g1"
      "set (exploredCells ?g) \<subseteq> set (exploredCells g1)"
      "set (visitedCells ?g) \<subseteq> set (visitedCells g1)"
      by blast
    from Cons.IH[OF s(2)]
    obtain g' where g': "runFrames fs g1 = Some g'"
      "set (exploredCells g1) \<subseteq> set (exploredCells g')"
      "set (visitedCells g1) \<subseteq> set (visitedCells g')"
      by blast
    have "runFrames (f # fs) g = Some g'" using s(1) g'(1) by simp
    moreover have "set (exploredCells g) \<subseteq> set (exploredCells g')"
      using s(3) g'(2) by simp
    moreover have "set (visitedCells g) \<subseteq> set (visitedCells g')"
      using s(4) g'(3) by simp
    ultimately show ?case by blast
  qed
  then obtain g' where g': "runFrames fs g = Some g'"
     "set (exploredCells g) \<subseteq> set (exploredCells g')"
     "set (visitedCells g) \<subseteq> set (visitedCells g')"
    by blast
  have "card (set (exploredCells g)) \<le> card (set (exploredCells g'))"
    using g'(2) by (simp add: card_mono)
  moreover have "card (set (visitedCells g)) \<le> card (set (visitedCells g'))"
    using g'(3) by (simp add: card_mono)
  ultimately show ?thesis using g' by blast
qed

theorem explored_visited_monotone_witness:
  "wellConfigured sampleGame
   \<and> (\<exists>g'. runFrames [(pressRight, 0)] sampleGame = Some g'
         \<and> set (exploredCells sampleGame) \<subseteq> set (exploredCells g')
         \<and> set (visitedCells sampleGame) \<subseteq> set (visitedCells g')
         \<and> card (set (exploredCells sampleGame)) \<le> card (set (exploredCells g'))
         \<and> card (set (visitedCells sampleGame)) \<le> card (set (visitedCells g')))"
  using explored_visited_monotone[OF wellConfigured_sampleGame, of "[(pressRight, 0)]"]
    wellConfigured_sampleGame
  by blast

section \<open>A failing listener\<close>

text \<open>
  C9. Let a listener of an event throw when its turn comes. \<open>triggerEvent\<close> still
  invokes every listener of the event once, in order; it goes on with the listeners
  after the failing one, from the state in which the failure has been written to the
  console; the failure is in the console at the end; and the explored and the visited
  set are as before the notification. Whatever the listeners do, \<open>updateVisibility\<close>'s
  loop leaves exactly the old explored cells followed by the new visible ones.
\<close>

theorem listener_failure_is_contained:
  assumes "eventListeners g ev = pre @ cb # post"
    and "cb d (world (runCallbacks 0 pre ev d g)) = Threw e w"
  shows "calls (triggerEvent ev d g) = calls g @ map (Pair ev) [0..<length (pre @ cb # post)]
     \<and> triggerEvent ev d g
         = runCallbacks (Suc (length pre)) post ev d
             ((runCallbacks 0 pre ev d g)
                \<lparr>world := w,
                 calls := calls (runCallbacks 0 pre ev d g) @ [(ev, length pre)],
                 console := console (runCallbacks 0 pre ev d g) @ [CallbackError ev e]\<rparr>)
     \<and> CallbackError ev e \<in> set (console (triggerEvent ev d g))
     \<and> exploredCells (triggerEvent ev d g) = exploredCells g
     \<and> visitedCells (triggerEvent ev d g) = visitedCells g
     \<and> exploredCells (exploreLoop vis g) = foldl (\<lambda>ks c. setAdd c ks) (exploredCells g) vis"
proof -
  let ?g1 = "runCallbacks 0 pre ev d g"
  let ?g2 = "?g1\<lparr>world := w, calls := calls ?g1 @ [(ev, length pre)],
                 console := console ?g1 @ [CallbackError ev e]\<rparr>"
  have t: "triggerEvent ev d g = runCallbacks (Suc (length pre)) post ev d ?g2"
    using assms by (simp add: triggerEvent_def runCallbacks_append)
  have "CallbackError ev e \<in> set (console ?g2)" by simp
  then have c: "CallbackError ev e \<in> set (console (triggerEvent ev d g))"
    unfolding t using runCallbacks_console_mono[of ?g2 "Suc (length pre)" post ev d] by blast
  have k: "calls (triggerEvent ev d g) = calls g @ map (Pair ev) [0..<length (pre @ cb # post)]"
    using runCallbacks_calls[of 0 "pre @ cb # post" ev d g] assms(1)
    by (simp add: triggerEvent_def)
  show ?thesis
    using t c k triggerEvent_fields[of ev d g] exploreLoop_fields[of vis g] by simp
qed

theorem listener_failure_is_contained_witness:
  "eventListeners listenerGame OnCellExplored
     = [markListener 0] @ failingListener 1 # [markListener 2]
   \<and> failingListener 1 (CellExploredData 1 0 2 25)
        (world (runCallbacks 0 [markListener 0] OnCellExplored (CellExploredData 1 0 2 25)
                  listenerGame))
       = Threw ''listener failed'' [0, 1]
   \<and> calls (triggerEvent OnCellExplored (CellExploredData 1 0 2 25) listenerGame)
       = [(OnCellExplored, 0), (OnCellExplored, 1), (OnCellExplored, 2)]
   \<and> CallbackError OnCellExplored ''listener failed''
        \<in> set (console (triggerEvent OnCellExplored (CellExploredData 1 0 2 25) listenerGame))
   \<and> exploredCells (triggerEvent OnCellExplored (CellExploredData 1 0 2 25) listenerGame)
       = [(0, 0)]
   \<and> exploredCells (exploreLoop [(1, 0), (0, 0), (1, 1)] listenerGame)
       = [(0, 0), (1, 0), (1, 1)]
   \<and> world (exploreLoop [(1, 0), (0, 0), (1, 1)] listenerGame) = [0, 1, 2, 0, 1, 2]"
proof -
  let ?d = "CellExploredData 1 0 2 25"
  have a: "eventListeners listenerGame OnCellExplored
     = [markListener 0] @ failingListener 1 # [markListener 2]"
    by (simp add: listenerGame_def)
  have b: "failingListener 1 ?d
        (world (runCallbacks 0 [markListener 0] OnCellExplored ?d listenerGame))
       = Threw ''listener failed'' [0, 1]"
    by (simp add: listenerGame_def sampleGame_def markListener_def failingListener_def)
  have e: "exploredCells listenerGame = [(0, 0)]" "calls listenerGame = []"
    by (simp_all add: listenerGame_def sampleGame_def)
  have w: "world (exploreLoop [(1, 0), (0, 0), (1, 1)] listenerGame) = [0, 1, 2, 0, 1, 2]"
    by (simp add: listenerGame_def sampleGame_def markListener_def failingListener_def
        triggerEvent_def Let_def)
  note t = listener_failure_is_contained[OF a b, of "[(1, 0), (0, 0), (1, 1)]"]
  have c1: "calls (triggerEvent OnCellExplored ?d listenerGame)
       = [(OnCellExplored, 0), (OnCellExplored, 1), (OnCellExplored, 2)]"
    using t[THEN conjunct1] by (simp add: e upt_conv_Cons)
  have c2: "CallbackError OnCellExplored ''listener failed''
        \<in> set (console (triggerEvent OnCellExplored ?d listenerGame))"
    using t[THEN conjunct2, THEN conjunct2, THEN conjunct1] .
  have c3: "exploredCells (triggerEvent OnCellExplored ?d listenerGame) = [(0, 0)]"
    using t[THEN conjunct2, THEN conjunct2, THEN conjunct2, THEN conjunct1] by (simp add: e)
  have c4: "exploredCells (exploreLoop [(1, 0), (0, 0), (1, 1)] listenerGame)
       = [(0, 0), (1, 0), (1, 1)]"
    using t[THEN conjunct2, THEN conjunct2, THEN conjunct2, THEN conjunct2, THEN conjunct2]
    by (simp add: e setAdd_def)
  from a b c1 c2 c3 c4 w show ?thesis by (intro conjI)
qed

section \<open>Collision test\<close>

lemma cellWallCollision_segments:
  "cellWallCollision mz px py r cs cx cy =
     (horizontalSegmentHit mz px py r cs cy cx \<or> horizontalSegmentHit mz px py r cs (cy + 1) cx
      \<or> verticalSegmentHit mz px py r cs cy cx \<or> verticalSegmentHit mz px py r cs cy (cx + 1))"
  by (simp add: cellWallCollision_def horizontalSegmentHit_def verticalSegmentHit_def)

lemma bex_rows4: "(\<exists>i \<in> {a - 1..a + 2}. P i) = (P (a - 1) \<or> P a \<or> P (a + 1) \<or> P (a + 2))"
  for a :: int
proof -
  have "{a - 1..a + 2} = {a - 1, a, a + 1, a + 2}" by auto
  then show ?thesis by simp
qed

lemma bex_rows3: "(\<exists>i \<in> {a - 1..a + 1}. P i) = (P (a - 1) \<or> P a \<or> P (a + 1))"
  for a :: int
proof -
  have "{a - 1..a + 1} = {a - 1, a, a + 1}" by auto
  then show ?thesis by simp
qed

lemma checkWallCollision_segments:
  "checkWallCollision mz px py r cs =
     ((\<exists>row \<in> {\<lfloor>py / cs\<rfloor> - 1..\<lfloor>py / cs\<rfloor> + 2}. \<exists>col \<in> {\<lfloor>px / cs\<rfloor> - 1..\<lfloor>px / cs\<rfloor> + 1}.
          horizontalSegmentHit mz px py r cs row col)
      \<or> (\<exists>row \<in> {\<lfloor>py / cs\<rfloor> - 1..\<lfloor>py / cs\<rfloor> + 1}. \<exists>col \<in> {\<lfloor>px / cs\<rfloor> - 1..\<lfloor>px / cs\<rfloor> + 2}.
          verticalSegmentHit mz px py r cs row col))"
proof -
  have a: "c + 1 + 1 = c + 2" "c - 1 + 1 = c" for c :: int by simp_all
  show ?thesis
    unfolding checkWallCollision_def Let_def cellWallCollision_segments bex_rows4 bex_rows3
    by (simp add: a) blast
qed

text \<open>
  C3, as amended. For a candidate centre inside the maze bounds, \<open>canMoveTo\<close> returns
  \<open>false\<close> if and only if some wall segment bounding a cell of the 3 by 3 neighbourhood
  of the candidate's cell is set, contains the candidate's coordinate in its span and
  lies at a distance below the radius from the candidate. In particular a segment
  with \<open>d < radius\<close> rejects the move; a segment with \<open>d \<ge> radius\<close> does not make the move
  admissible when another segment is closer.
\<close>

theorem canMoveTo_collision:
  assumes "withinBounds g px py"
  shows "(\<not> canMoveTo g px py) =
     ((\<exists>row \<in> {\<lfloor>py / cellSize (config_g g)\<rfloor> - 1..\<lfloor>py / cellSize (config_g g)\<rfloor> + 2}.
        \<exists>col \<in> {\<lfloor>px / cellSize (config_g g)\<rfloor> - 1..\<lfloor>px / cellSize (config_g g)\<rfloor> + 1}.
          horizontalSegmentHit (maze g) px py (radius (player g)) (cellSize (config_g g)) row col)
      \<or> (\<exists>row \<in> {\<lfloor>py / cellSize (config_g g)\<rfloor> - 1..\<lfloor>py / cellSize (config_g g)\<rfloor> + 1}.
        \<exists>col \<in> {\<lfloor>px / cellSize (config_g g)\<rfloor> - 1..\<lfloor>px / cellSize (config_g g)\<rfloor> + 2}.
          verticalSegmentHit (maze g) px py (radius (player g)) (cellSize (config_g g)) row col))"
proof -
  have "canMoveTo g px py
        = (\<not> checkWallCollision (maze g) px py (radius (player g)) (cellSize (config_g g)))"
    using assms by (auto simp add: canMoveTo_def withinBounds_def Let_def)
  then show ?thesis by (simp add: checkWallCollision_segments)
qed

theorem canMoveTo_collision_witness:
  "withinBounds corridorGame 20 35
   \<and> horizontalSegmentHit (maze corridorGame) 20 35 (radius (player corridorGame))
        (cellSize (config_g corridorGame)) 1 0
   \<and> \<not> canMoveTo corridorGame 20 35"
proof -
  have a: "withinBounds corridorGame 20 35"
    by (simp add: withinBounds_def corridorGame_def sampleGame_def)
  have c: "cellSize (config_g corridorGame) = 40" "radius (player corridorGame) = 8"
    "maze corridorGame = corridorMaze"
    by (simp_all add: corridorGame_def sampleGame_def)
  have h: "horizontalSegmentHit corridorMaze 20 35 8 40 1 0"
    by (simp add: horizontalSegmentHit_def corridorMaze_def openMaze_def)
  have "\<exists>row \<in> {\<lfloor>35 / 40 :: real\<rfloor> - 1..\<lfloor>35 / 40 :: real\<rfloor> + 2}.
        \<exists>col \<in> {\<lfloor>20 / 40 :: real\<rfloor> - 1..\<lfloor>20 / 40 :: real\<rfloor> + 1}.
          horizontalSegmentHit corridorMaze 20 35 8 40 row col"
    using h by (intro bexI[of _ 1] bexI[of _ 0]) simp_all
  with canMoveTo_collision[OF a] a h show ?thesis by (simp add: c)
qed

text \<open>
  The claim as written, an equivalence for each single segment, fails in a corridor:
  at (20, 35) with radius 8 the horizontal wall of row 2 is set, spans the candidate
  and is 45 pixels away, and the move is rejected all the same, by the wall of row 1,
  which is 5 pixels away.
\<close>

theorem canMoveTo_single_segment_counterexample:
  "withinBounds corridorGame 20 35
   \<and> getWall (maze corridorGame) Horizontal 2 0
   \<and> of_int 0 * cellSize (config_g corridorGame) \<le> 20
   \<and> 20 \<le> of_int (0 + 1) * cellSize (config_g corridorGame)
   \<and> \<not> \<bar>35 - of_int 2 * cellSize (config_g corridorGame)\<bar> < radius (player corridorGame)
   \<and> canMoveTo corridorGame 20 35 = False"
  by (simp add: withinBounds_def corridorGame_def sampleGame_def corridorMaze_def openMaze_def
      openWall_def canMoveTo_def checkWallCollision_def cellWallCollision_def Let_def)

section \<open>Configuration setters clamp and clear\<close>

text \<open>
  C8. Each configuration setter stores its argument clamped to its interval, changes
  no other field of the configuration, and empties the cache. An argument inside the
  interval is stored as it is, one below is replaced by the lower bound and one above
  by the upper bound: \<open>setRayCount(10)\<close> leaves 36, \<open>setRayCount(1000)\<close> leaves 720,
  \<open>setFOV(10)\<close> leaves 45, \<open>setMaxRayDistance(50)\<close> leaves 20. For every argument the
  stored value lies in the interval, and the cache is empty after each call.
\<close>

theorem setters_clamp_and_clear:
  "rayCount (config (setRayCount 10 s)) = 36
   \<and> rayCount (config (setRayCount 1000 s)) = 720
   \<and> fov (config (setFOV 10 s)) = 45
   \<and> maxRayDistance (config (setMaxRayDistance 50 s)) = 20
   \<and> 36 \<le> rayCount (config (setRayCount c s)) \<and> rayCount (config (setRayCount c s)) \<le> 720
   \<and> 45 \<le> fov (config (setFOV c s)) \<and> fov (config (setFOV c s)) \<le> 360
   \<and> 1 \<le> maxRayDistance (config (setMaxRayDistance c s))
   \<and> maxRayDistance (config (setMaxRayDistance c s)) \<le> 20
   \<and> cache (setRayCount c s) = [] \<and> cache (setFOV c s) = []
   \<and> cache (setMaxRayDistance c s) = []
   \<and> rayCount (config (setRayCount c s)) = max 36 (min c 720)
   \<and> maxRayDistance (config (setMaxRayDistance c s)) = max 1 (min c 20)
   \<and> fov (config (setFOV c s)) = max 45 (min c 360)
   \<and> (36 \<le> c \<and> c \<le> 720 \<longrightarrow> rayCount (config (setRayCount c s)) = c)
   \<and> (c < 36 \<longrightarrow> rayCount (config (setRayCount c s)) = 36)
   \<and> (720 < c \<longrightarrow> rayCount (config (setRayCount c s)) = 720)
   \<and> (1 \<le> c \<and> c \<le> 20 \<longrightarrow> maxRayDistance (config (setMaxRayDistance c s)) = c)
   \<and> (c < 1 \<longrightarrow> maxRayDistance (config (setMaxRayDistance c s)) = 1)
   \<and> (20 < c \<longrightarrow> maxRayDistance (config (setMaxRayDistance c s)) = 20)
   \<and> (45 \<le> c \<and> c \<le> 360 \<longrightarrow> fov (config (setFOV c s)) = c)
   \<and> (c < 45 \<longrightarrow> fov (config (setFOV c s)) = 45)
   \<and> (360 < c \<longrightarrow> fov (config (setFOV c s)) = 360)
   \<and> config (setRayCount c s) = (config s)\<lparr>rayCount := max 36 (min c 720)\<rparr>
   \<and> config (setMaxRayDistance c s) = (config s)\<lparr>maxRayDistance := max 1 (min c 20)\<rparr>
   \<and> config (setFOV c s) = (config s)\<lparr>fov := max 45 (min c 360)\<rparr>
   \<and> setRayCount c s = s\<lparr>config := config (setRayCount c s), cache := []\<rparr>
   \<and> setMaxRayDistance c s = s\<lparr>config := config (setMaxRayDistance c s), cache := []\<rparr>
   \<and> setFOV c s = s\<lparr>config := config (setFOV c s), cache := []\<rparr>"
  by (simp add: setRayCount_def setFOV_def setMaxRayDistance_def clearCache_def)

theorem setters_clamp_and_clear_witness:
  "(36 :: real) \<le> 180 \<and> (180 :: real) \<le> 720
   \<and> rayCount (config (setRayCount 180 scenarioSystem)) = 180
   \<and> (45 :: real) \<le> 180 \<and> (180 :: real) \<le> 360
   \<and> fov (config (setFOV 180 scenarioSystem)) = 180
   \<and> (20 :: real) < 180
   \<and> maxRayDistance (config (setMaxRayDistance 180 scenarioSystem)) = 20
   \<and> (1 :: real) \<le> 5 \<and> (5 :: real) \<le> 20
   \<and> maxRayDistance (config (setMaxRayDistance 5 scenarioSystem)) = 5
   \<and> (5 :: real) < 36
   \<and> rayCount (config (setRayCount 5 scenarioSystem)) = 36
   \<and> (5 :: real) < 45
   \<and> fov (config (setFOV 5 scenarioSystem)) = 45"
  using setters_clamp_and_clear[of scenarioSystem 180] setters_clamp_and_clear[of scenarioSystem 5]
  by simp

end
